theory Spec2Isabelle
  imports Main "HOL-Library.Sublist" "HOL-Library.Multiset" "HOL-Library.Product_Lexorder"
begin

section \<open>Go values shared by the components\<close>

text \<open>
  Instants and durations are integers counting nanoseconds, as Go's \<open>time.Duration\<close>
  does; \<open>60 * time.Second\<close> is \<open>60000000000\<close>.  A Go \<open>error\<close> value is its
  message together with the \<open>*openai.APIError\<close> (HTTP status and message) that
  \<open>errors.As\<close> finds in its chain, if there is one; \<open>nil\<close> is \<open>None\<close> of
  \<open>go_error option\<close>.
\<close>

type_synonym time = int

definition second :: time where
  "second = 1000000000"

datatype go_error = GoError (err_text: string) (err_api: "(int \<times> string) option")

definition Errorf :: "string \<Rightarrow> go_error" where
  "Errorf msg = GoError msg None"


subsection \<open>Strings\<close>

text \<open>
  Go strings are byte sequences, as \<^typ>\<open>string\<close> is.  \<open>strings.ToLower\<close> is modelled on
  ASCII text: the letters A to Z are mapped, every other byte is kept.
  \<open>strings.Contains\<close> and \<open>strings.Index\<close> search for a contiguous substring.
  \<open>strings.Split\<close> is modelled at a one-byte separator, the only way the sources use it.
\<close>

definition lower_char :: "char \<Rightarrow> char" where
  "lower_char c =
     (case map_of (zip ''ABCDEFGHIJKLMNOPQRSTUVWXYZ'' ''abcdefghijklmnopqrstuvwxyz'') c of
        Some d \<Rightarrow> d
      | None \<Rightarrow> c)"

definition ToLower :: "string \<Rightarrow> string" where
  "ToLower s = map lower_char s"

primrec Contains :: "string \<Rightarrow> string \<Rightarrow> bool" where
  "Contains [] sub = (sub = [])"
| "Contains (c # cs) sub = (prefix sub (c # cs) \<or> Contains cs sub)"

primrec Index :: "string \<Rightarrow> string \<Rightarrow> int" where
  "Index [] sub = (if sub = [] then 0 else -1)"
| "Index (c # cs) sub =
     (if prefix sub (c # cs) then 0
      else (let i = Index cs sub in if i < 0 then -1 else i + 1))"

primrec Split :: "string \<Rightarrow> char \<Rightarrow> string list" where
  "Split [] sep = [[]]"
| "Split (c # cs) sep =
     (if c = sep then [] # Split cs sep
      else (case Split cs sep of [] \<Rightarrow> [[c]] | p # ps \<Rightarrow> (c # p) # ps))"

definition isSpace :: "char \<Rightarrow> bool" where
  "isSpace c = (c \<in> set [CHR '' '', CHR 0x09, CHR 0x0A, CHR 0x0B, CHR 0x0C, CHR 0x0D])"

definition TrimSpace :: "string \<Rightarrow> string" where
  "TrimSpace s = rev (dropWhile isSpace (rev (dropWhile isSpace s)))"

text \<open>\<open>%d\<close> of \<open>fmt.Sprintf\<close>: an integer in decimal.\<close>

function show_nat :: "nat \<Rightarrow> string" where
  "show_nat n =
     (if n < 10 then [''0123456789'' ! n] else show_nat (n div 10) @ [''0123456789'' ! (n mod 10)])"
  by pat_completeness auto
termination
  by (relation "measure id") auto

declare show_nat.simps [simp del]

definition show_int :: "int \<Rightarrow> string" where
  "show_int i = (if i < 0 then CHR ''-'' # show_nat (nat (- i)) else show_nat (nat i))"


section \<open>services/circuit\_breaker.go\<close>

record CircuitBreaker =
  cb_name :: string
  maxFailures :: int
  cooldown :: time
  failures :: int
  lastFailure :: time
  isOpen :: bool

definition NewCircuitBreaker :: "string \<Rightarrow> int \<Rightarrow> time \<Rightarrow> CircuitBreaker" where
  "NewCircuitBreaker name maxF cd =
     \<lparr>cb_name = name, maxFailures = maxF, cooldown = cd, failures = 0,
      lastFailure = 0, isOpen = False\<rparr>"

text \<open>
  \<open>Call\<close> runs under the breaker's mutex, so it is one atomic step.  The guarded function
  \<open>fn\<close> acts on the rest of the program's state \<open>'s\<close> and returns its error;
  \<open>clk\<close> reads the clock of that state (\<open>time.Since\<close> before the call,
  \<open>time.Now\<close> after it), and \<open>fmt\<close> renders an instant as \<open>%v\<close> does.
  A call that is refused returns the state it was given: \<open>fn\<close> was not run.
\<close>

definition breaker_open_error :: "(time \<Rightarrow> string) \<Rightarrow> CircuitBreaker \<Rightarrow> go_error" where
  "breaker_open_error fmt cb =
     Errorf (''circuit breaker '' @ cb_name cb @ '' is open (cooldown until ''
             @ fmt (lastFailure cb + cooldown cb) @ '')'')"

definition Call ::
  "(time \<Rightarrow> string) \<Rightarrow> ('s \<Rightarrow> time) \<Rightarrow> CircuitBreaker \<Rightarrow> ('s \<Rightarrow> go_error option \<times> 's) \<Rightarrow> 's
     \<Rightarrow> go_error option \<times> CircuitBreaker \<times> 's" where
  "Call fmt clk cb fn s =
     (if isOpen cb \<and> \<not> (clk s - lastFailure cb > cooldown cb) then
        (Some (breaker_open_error fmt cb), cb, s)
      else
        let cb1 = (if isOpen cb then cb\<lparr>isOpen := False, failures := 0\<rparr> else cb) in
        case fn s of
          (Some err, s') \<Rightarrow>
            let cb2 = cb1\<lparr>failures := failures cb1 + 1, lastFailure := clk s'\<rparr>;
                cb3 = (if failures cb2 \<ge> maxFailures cb2 then cb2\<lparr>isOpen := True\<rparr> else cb2)
            in (Some err, cb3, s')
        | (None, s') \<Rightarrow> (None, cb1\<lparr>failures := 0\<rparr>, s'))"

definition openRouterCB :: CircuitBreaker where
  "openRouterCB = NewCircuitBreaker ''openrouter'' 5 (60 * second)"

text \<open>
  Any number of calls in a row, each with its own guarded function and made in its own
  program state (other work happens, and time passes, between two calls).
\<close>

fun run_calls ::
  "(time \<Rightarrow> string) \<Rightarrow> ('s \<Rightarrow> time) \<Rightarrow> CircuitBreaker
     \<Rightarrow> (('s \<Rightarrow> go_error option \<times> 's) \<times> 's) list \<Rightarrow> CircuitBreaker" where
  "run_calls fmt clk cb [] = cb"
| "run_calls fmt clk cb ((fn, s) # cs) =
     (case Call fmt clk cb fn s of (_, cb', _) \<Rightarrow> run_calls fmt clk cb' cs)"

text \<open>
  What every breaker reached from \<open>openRouterCB\<close> satisfies: the parameters never
  change, the failure counter stays between 0 and 5 (so Go's \<open>int\<close> never wraps), and the
  breaker is open exactly when the counter stands at 5.
\<close>

definition cb_inv :: "CircuitBreaker \<Rightarrow> bool" where
  "cb_inv cb = (maxFailures cb = 5 \<and> cooldown cb = 60 * second \<and> cb_name cb = ''openrouter''
                \<and> 0 \<le> failures cb \<and> failures cb \<le> 5 \<and> isOpen cb = (failures cb = 5))"

text \<open>
  A concrete run: the program state is just the clock, one guarded function fails and
  one succeeds, and five failures in a row trip the breaker at time 0.
\<close>

definition fail_fn :: "time \<Rightarrow> go_error option \<times> time" where
  "fail_fn t = (Some (Errorf ''boom''), t)"

definition ok_fn :: "time \<Rightarrow> go_error option \<times> time" where
  "ok_fn t = (None, t)"

definition fmt0 :: "time \<Rightarrow> string" where
  "fmt0 t = ''2025-01-01 00:17:30.000000001 +0000 UTC m=+1050.000000001''"

definition five_failures :: "((time \<Rightarrow> go_error option \<times> time) \<times> time) list" where
  "five_failures = [(fail_fn, 0), (fail_fn, 0), (fail_fn, 0), (fail_fn, 0), (fail_fn, 0)]"

definition cb_tripped :: CircuitBreaker where
  "cb_tripped = run_calls fmt0 (\<lambda>t. t) openRouterCB five_failures"


section \<open>services/openrouter\_errors.go\<close>

record OpenRouterError =
  StatusCode :: int
  Code :: int
  Message :: string

definition IsRetryable :: "OpenRouterError \<Rightarrow> bool" where
  "IsRetryable e =
     (StatusCode e = 408 \<or> StatusCode e = 429 \<or> StatusCode e = 502 \<or> StatusCode e = 503)"

definition IsAuthError :: "OpenRouterError \<Rightarrow> bool" where
  "IsAuthError e = (StatusCode e = 401)"

definition IsPaymentError :: "OpenRouterError \<Rightarrow> bool" where
  "IsPaymentError e = (StatusCode e = 402)"

definition IsModerationError :: "OpenRouterError \<Rightarrow> bool" where
  "IsModerationError e = (StatusCode e = 403)"

definition IsContextLengthError :: "OpenRouterError \<Rightarrow> bool" where
  "IsContextLengthError e =
     (if StatusCode e \<noteq> 400 then False
      else
        let msgLower = ToLower (Message e) in
        Contains msgLower ''context'' \<and>
          (Contains msgLower ''length'' \<or> Contains msgLower ''exceeded''
           \<or> Contains msgLower ''too long''))"

text \<open>
  \<open>ParseSDKError\<close> of a non-nil error (the worker calls it on nothing else): the
  \<open>*openai.APIError\<close> in the chain if there is one, the phrases of the message
  otherwise, in the order of the source.
\<close>

definition ParseSDKError :: "go_error \<Rightarrow> OpenRouterError" where
  "ParseSDKError err =
     (case err_api err of
        Some (status, msg) \<Rightarrow> \<lparr>StatusCode = status, Code = status, Message = msg\<rparr>
      | None \<Rightarrow>
          let errMsg = err_text err; errMsgLower = ToLower errMsg in
          if Contains errMsgLower ''timeout'' \<or> Contains errMsgLower ''deadline exceeded'' then
            \<lparr>StatusCode = 408, Code = 408, Message = ''Request timeout''\<rparr>
          else if Contains errMsgLower ''context'' \<and>
                  (Contains errMsgLower ''length'' \<or> Contains errMsgLower ''too long'') then
            \<lparr>StatusCode = 400, Code = 400, Message = errMsg\<rparr>
          else if Contains errMsgLower ''unauthorized'' \<or> Contains errMsgLower ''invalid api key'' then
            \<lparr>StatusCode = 401, Code = 401, Message = ''Authentication failed''\<rparr>
          else if Contains errMsgLower ''insufficient'' \<or> Contains errMsgLower ''quota''
                  \<or> Contains errMsgLower ''billing'' then
            \<lparr>StatusCode = 402, Code = 402, Message = ''Insufficient credits or quota exceeded''\<rparr>
          else if Contains errMsgLower ''rate limit'' \<or> Contains errMsgLower ''too many requests'' then
            \<lparr>StatusCode = 429, Code = 429, Message = ''Rate limit exceeded''\<rparr>
          else if Contains errMsgLower ''bad gateway'' then
            \<lparr>StatusCode = 502, Code = 502, Message = ''Bad gateway''\<rparr>
          else if Contains errMsgLower ''service unavailable''
                  \<or> Contains errMsgLower ''temporarily unavailable'' then
            \<lparr>StatusCode = 503, Code = 503, Message = ''Service temporarily unavailable''\<rparr>
          else
            \<lparr>StatusCode = 500, Code = 500, Message = errMsg\<rparr>)"


section \<open>models: the tables of the local database\<close>

text \<open>
  One record per GORM model, with the columns the code reads or writes; timestamps that
  GORM alone maintains on the chat and attempt rows are left out.  A \<open>*time.Time\<close> that
  may be NULL is an option.
\<close>

record AIChatMessage =
  msg_ID :: nat
  msg_MessageID :: string
  msg_SessionTok :: string
  msg_From :: string
  msg_To :: string
  msg_FromMe :: bool
  msg_MsgType :: string
  msg_Body :: string
  msg_PushName :: string
  msg_IsRead :: bool
  msg_Timestamp :: time

record AIJob =
  job_ID :: nat
  job_Status :: string
  job_Priority :: int
  job_SessionTok :: string
  job_MessageID :: string
  job_UserID :: string
  job_InputJSON :: string
  job_OutputJSON :: string
  job_ErrorMsg :: string
  job_Attempts :: int
  job_NextRunAt :: "time option"
  job_CreatedAt :: time
  job_UpdatedAt :: time

record AIJobAttempt =
  att_ID :: nat
  att_JobID :: nat
  att_StartedAt :: time
  att_EndedAt :: time
  att_Status :: string
  att_ErrorMsg :: string

text \<open>
  The state the handler and the worker act on: the clock, the three tables with their id
  sequences, the worker's global circuit breaker, and a log of what was sent out (the
  prompts given to the model, the \<open>max_messages\<close> of every context build, the WhatsApp
  texts).  \<open>reply\<close> holds the variables \<open>response, inTok, outTok\<close> that the
  closure passed to the breaker assigns.
\<close>

record world =
  now :: time
  ai_chat_messages :: "AIChatMessage list"
  seq_msg :: nat
  ai_jobs :: "AIJob list"
  seq_job :: nat
  ai_job_attempts :: "AIJobAttempt list"
  seq_attempt :: nat
  breaker :: CircuitBreaker
  llm_calls :: "(string \<times> string) list"
  reply :: "string \<times> int \<times> int"
  ctx_builds :: "int list"
  wa_sent :: "(string \<times> string \<times> string) list"

text \<open>\<open>db.Model(row).Updates(...)\<close>: an UPDATE of the row with the model's primary key.\<close>

definition update_job :: "nat \<Rightarrow> (AIJob \<Rightarrow> AIJob) \<Rightarrow> AIJob list \<Rightarrow> AIJob list" where
  "update_job i f tbl = map (\<lambda>r. if job_ID r = i then f r else r) tbl"

definition update_attempt ::
  "nat \<Rightarrow> (AIJobAttempt \<Rightarrow> AIJobAttempt) \<Rightarrow> AIJobAttempt list \<Rightarrow> AIJobAttempt list" where
  "update_attempt i f tbl = map (\<lambda>r. if att_ID r = i then f r else r) tbl"

text \<open>\<open>db.Where("message_id = ?", id).First(&m)\<close>: the first matching row, if any.\<close>

definition first_message :: "string \<Rightarrow> AIChatMessage list \<Rightarrow> AIChatMessage option" where
  "first_message mid tbl = find (\<lambda>m. msg_MessageID m = mid) tbl"


section \<open>worker/ai\_worker.go\<close>

subsection \<open>Claiming a job (the body of the loop of processJobs)\<close>

text \<open>
  The claim query, clause by clause: \<open>WHERE status = 'pending' AND (next_run_at IS NULL OR
  next_run_at <= NOW())\<close> is \<open>eligible\<close>; \<open>FOR UPDATE SKIP LOCKED\<close> passes over the rows
  whose ids are in \<open>locked\<close>, the rows another transaction holds a lock on at that moment
  (the listener goroutine and the 2 s ticker both run processJobs, and so may other
  processes); \<open>ORDER BY priority ASC, id ASC LIMIT 1\<close> takes the first row in that order.
\<close>

definition eligible :: "time \<Rightarrow> AIJob \<Rightarrow> bool" where
  "eligible dbnow j =
     (job_Status j = ''pending'' \<and>
      (case job_NextRunAt j of None \<Rightarrow> True | Some t \<Rightarrow> t \<le> dbnow))"

definition claim_query :: "time \<Rightarrow> nat set \<Rightarrow> AIJob list \<Rightarrow> AIJob option" where
  "claim_query dbnow locked tbl =
     (case sort_key (\<lambda>j. (job_Priority j, job_ID j))
             (filter (\<lambda>j. eligible dbnow j \<and> job_ID j \<notin> locked) tbl) of
        [] \<Rightarrow> None
      | j # _ \<Rightarrow> Some j)"

text \<open>
  One claim: the query, then (unless it found nothing, which leaves \<open>job.ID == 0\<close>) the
  UPDATE of that row and the commit.  \<open>dbnow\<close> is the database's \<open>NOW()\<close>, \<open>tnow\<close> the
  worker's \<open>time.Now()\<close>.  The result is the job struct the worker goes on with, whose
  fields GORM's \<open>Updates\<close> has set to the written values, and the committed table.
\<close>

definition claimJob ::
  "time \<Rightarrow> time \<Rightarrow> nat set \<Rightarrow> AIJob list \<Rightarrow> (AIJob \<times> AIJob list) option" where
  "claimJob dbnow tnow locked tbl =
     (case claim_query dbnow locked tbl of
        None \<Rightarrow> None
      | Some job \<Rightarrow>
          if job_ID job = 0 then None
          else
            let upd = (\<lambda>r. r\<lparr>job_Status := ''processing'',
                               job_Attempts := job_Attempts job + 1,
                               job_UpdatedAt := tnow\<rparr>)
            in Some (upd job, update_job (job_ID job) upd tbl))"

subsection \<open>What the worker calls outside this repository's state\<close>

text \<open>
  The environment of one job: how an instant prints (\<open>%v\<close>), what
  \<open>BuildContextWithLimit\<close> returns for a job and a \<open>max_messages\<close> (it reads the provider
  facade), what the model provider answers to the n-th request and how long that takes,
  whether the gateway accepts a text, and \<open>json.Marshal\<close> of the output map.
\<close>

record env =
  fmt_time :: "time \<Rightarrow> string"
  build_context :: "AIJob \<Rightarrow> int \<Rightarrow> go_error + (string \<times> string)"
  chat_completion :: "nat \<Rightarrow> string \<Rightarrow> string \<Rightarrow> (go_error + (string list \<times> int \<times> int)) \<times> time"
  send_wa_text :: "string \<Rightarrow> string \<Rightarrow> string \<Rightarrow> go_error option"
  marshal_output :: "string \<Rightarrow> int \<Rightarrow> int \<Rightarrow> int \<Rightarrow> string"

text \<open>
  \<open>services.AskLLM\<close> as the closure given to the breaker: one request to the provider,
  whose error is returned as it is; an answer without choices is an error of its own.
\<close>

definition AskLLM :: "env \<Rightarrow> string \<Rightarrow> string \<Rightarrow> world \<Rightarrow> go_error option \<times> world" where
  "AskLLM env systemPrompt userMessage w =
     (case chat_completion env (length (llm_calls w)) systemPrompt userMessage of
        (res, dur) \<Rightarrow>
          let w1 = w\<lparr>now := now w + dur,
                     llm_calls := llm_calls w @ [(systemPrompt, userMessage)]\<rparr>
          in case res of
               Inl err \<Rightarrow> (Some err, w1\<lparr>reply := ('''', 0, 0)\<rparr>)
             | Inr (choices, promptTokens, completionTokens) \<Rightarrow>
                 (case choices of
                    [] \<Rightarrow> (Some (Errorf ''no response from LLM''), w1\<lparr>reply := ('''', 0, 0)\<rparr>)
                  | output # _ \<Rightarrow> (None, w1\<lparr>reply := (output, promptTokens, completionTokens)\<rparr>)))"

subsection \<open>failJob and permanentFailJob\<close>

definition failJob :: "world \<Rightarrow> AIJob \<Rightarrow> AIJobAttempt \<Rightarrow> string \<Rightarrow> world" where
  "failJob w job attempt errMsg =
     (let tnow = now w;
          w1 = w\<lparr>ai_job_attempts :=
                   update_attempt (att_ID attempt)
                     (\<lambda>a. a\<lparr>att_Status := ''error'', att_ErrorMsg := errMsg, att_EndedAt := tnow\<rparr>)
                     (ai_job_attempts w)\<rparr>
      in if job_Attempts job < 3 then
           let nextRun = now w1 + 30 * second in
           w1\<lparr>ai_jobs :=
                update_job (job_ID job)
                  (\<lambda>r. r\<lparr>job_ErrorMsg := errMsg, job_UpdatedAt := tnow,
                          job_Status := ''pending'', job_NextRunAt := Some nextRun\<rparr>)
                  (ai_jobs w1)\<rparr>
         else
           w1\<lparr>ai_jobs :=
                update_job (job_ID job)
                  (\<lambda>r. r\<lparr>job_ErrorMsg := errMsg, job_UpdatedAt := tnow,
                          job_Status := ''failed''\<rparr>)
                  (ai_jobs w1)\<rparr>)"

definition permanentFailJob :: "world \<Rightarrow> AIJob \<Rightarrow> AIJobAttempt \<Rightarrow> string \<Rightarrow> world" where
  "permanentFailJob w job attempt errMsg =
     (let tnow = now w;
          w1 = w\<lparr>ai_job_attempts :=
                   update_attempt (att_ID attempt)
                     (\<lambda>a. a\<lparr>att_Status := ''error'', att_EndedAt := tnow, att_ErrorMsg := errMsg\<rparr>)
                     (ai_job_attempts w)\<rparr>
      in w1\<lparr>ai_jobs :=
              update_job (job_ID job)
                (\<lambda>r. r\<lparr>job_Status := ''failed'', job_ErrorMsg := errMsg, job_UpdatedAt := tnow\<rparr>)
                (ai_jobs w1)\<rparr>)"

subsection \<open>Completing a job\<close>

text \<open>
  The steps both processJob and handleLLMError run once the model has answered and the
  chat message is at hand: send the reply (a failure goes to failJob), then mark the job
  done and the attempt ok.  The goroutines that save the reply to the chat history and
  log usage, and the send-log row, touch no job or attempt row and are left out.
\<close>

definition sendAndComplete ::
  "env \<Rightarrow> world \<Rightarrow> AIJob \<Rightarrow> AIJobAttempt \<Rightarrow> AIChatMessage \<Rightarrow> time \<Rightarrow> world" where
  "sendAndComplete env w job attempt chatMsg start =
     (case reply w of
        (response, inTok, outTok) \<Rightarrow>
          let latency = (now w - start) div 1000000 in
          case send_wa_text env (job_SessionTok job) (msg_From chatMsg) response of
            Some err \<Rightarrow> failJob w job attempt (''Failed to send WA message: '' @ err_text err)
          | None \<Rightarrow>
              let w1 = w\<lparr>wa_sent := wa_sent w @ [(job_SessionTok job, msg_From chatMsg, response)]\<rparr>;
                  outputJSON = marshal_output env response inTok outTok latency;
                  tnow = now w1;
                  w2 = w1\<lparr>ai_jobs :=
                            update_job (job_ID job)
                              (\<lambda>r. r\<lparr>job_Status := ''done'', job_OutputJSON := outputJSON,
                                      job_UpdatedAt := tnow\<rparr>)
                              (ai_jobs w1)\<rparr>
              in w2\<lparr>ai_job_attempts :=
                      update_attempt (att_ID attempt)
                        (\<lambda>a. a\<lparr>att_Status := ''ok'', att_EndedAt := tnow\<rparr>)
                        (ai_job_attempts w2)\<rparr>)"

subsection \<open>handleLLMError\<close>

function handleLLMError ::
  "env \<Rightarrow> world \<Rightarrow> AIJob \<Rightarrow> AIJobAttempt \<Rightarrow> go_error \<Rightarrow> int \<Rightarrow> world" where
  "handleLLMError env w job attempt err currentMaxMessages =
     (let orErr = ParseSDKError err in
      if IsContextLengthError orErr \<and> currentMaxMessages > 5 then
        (let start = now w;
             w1 = w\<lparr>ctx_builds := ctx_builds w @ [5]\<rparr>
         in case build_context env job 5 of
              Inl ctxErr \<Rightarrow>
                permanentFailJob w1 job attempt
                  (''Context build failed even with 5 messages: '' @ err_text ctxErr)
            | Inr (systemPrompt, userMessage) \<Rightarrow>
                (case Call (fmt_time env) now (breaker w1) (AskLLM env systemPrompt userMessage) w1 of
                   (Some cbErr, cb', w2) \<Rightarrow>
                     handleLLMError env (w2\<lparr>breaker := cb'\<rparr>) job attempt cbErr 5
                 | (None, cb', w2) \<Rightarrow>
                     (let w3 = w2\<lparr>breaker := cb'\<rparr> in
                      case first_message (job_MessageID job) (ai_chat_messages w3) of
                        None \<Rightarrow>
                          failJob w3 job attempt ''Failed to fetch chat message: record not found''
                      | Some chatMsg \<Rightarrow> sendAndComplete env w3 job attempt chatMsg start)))
      else if IsAuthError orErr \<or> IsPaymentError orErr \<or> IsModerationError orErr then
        permanentFailJob w job attempt (show_int (Code orErr) @ '': '' @ Message orErr)
      else if \<not> IsRetryable orErr then
        permanentFailJob w job attempt
          (''Non-retryable error: '' @ show_int (Code orErr) @ '' - '' @ Message orErr)
      else
        failJob w job attempt
          (''LLM call failed ('' @ show_int (Code orErr) @ ''): '' @ Message orErr))"
  by pat_completeness auto
termination
  by (relation "measure (\<lambda>(env, w, job, attempt, err, cur). if cur > 5 then 1 else 0)") auto

declare handleLLMError.simps [simp del]

subsection \<open>processJob\<close>

definition processJob :: "env \<Rightarrow> world \<Rightarrow> AIJob \<Rightarrow> world" where
  "processJob env w job =
     (let start = now w;
          attempt = \<lparr>att_ID = Suc (seq_attempt w), att_JobID = job_ID job, att_StartedAt = start,
                     att_EndedAt = 0, att_Status = ''processing'', att_ErrorMsg = ''''\<rparr>;
          w1 = w\<lparr>ai_job_attempts := ai_job_attempts w @ [attempt],
                   seq_attempt := Suc (seq_attempt w)\<rparr>
      in case first_message (job_MessageID job) (ai_chat_messages w1) of
           None \<Rightarrow> failJob w1 job attempt ''Failed to fetch chat message: record not found''
         | Some chatMsg \<Rightarrow>
             (let maxMessages = 10;
                  w2 = w1\<lparr>ctx_builds := ctx_builds w1 @ [maxMessages]\<rparr>
              in case build_context env job maxMessages of
                   Inl err \<Rightarrow> failJob w2 job attempt (''Context build failed: '' @ err_text err)
                 | Inr (systemPrompt, userMessage) \<Rightarrow>
                     (case Call (fmt_time env) now (breaker w2)
                             (AskLLM env systemPrompt userMessage) w2 of
                        (Some cbErr, cb', w3) \<Rightarrow>
                          handleLLMError env (w3\<lparr>breaker := cb'\<rparr>) job attempt cbErr maxMessages
                      | (None, cb', w3) \<Rightarrow>
                          sendAndComplete env (w3\<lparr>breaker := cb'\<rparr>) job attempt chatMsg start)))"

text \<open>One round of the loop of processJobs: claim, commit, then process the job.\<close>

definition processJobs_step :: "env \<Rightarrow> time \<Rightarrow> nat set \<Rightarrow> world \<Rightarrow> world option" where
  "processJobs_step env dbnow locked w =
     (case claimJob dbnow (now w) locked (ai_jobs w) of
        None \<Rightarrow> None
      | Some (job, tbl') \<Rightarrow> Some (processJob env (w\<lparr>ai_jobs := tbl'\<rparr>) job))"

subsection \<open>A small queue\<close>

definition mk_job :: "nat \<Rightarrow> string \<Rightarrow> int \<Rightarrow> int \<Rightarrow> time option \<Rightarrow> string \<Rightarrow> AIJob" where
  "mk_job i st p a n mid =
     \<lparr>job_ID = i, job_Status = st, job_Priority = p, job_SessionTok = ''session-1'',
      job_MessageID = mid, job_UserID = ''u1'', job_InputJSON = ''halo'', job_OutputJSON = '''',
      job_ErrorMsg = '''', job_Attempts = a, job_NextRunAt = n, job_CreatedAt = 0,
      job_UpdatedAt = 0\<rparr>"

text \<open>Four pending jobs at time 100: job 3 has the best priority but is not due yet.\<close>

definition queue0 :: "AIJob list" where
  "queue0 = [mk_job 1 ''pending'' 5 0 None ''m1'', mk_job 2 ''pending'' 5 1 (Some 90) ''m2'',
             mk_job 3 ''pending'' 1 1 (Some 500) ''m3'', mk_job 4 ''pending'' 4 0 None ''m4'']"

subsection \<open>What processing a job does to the job table\<close>

text \<open>
  The three ways a job row is written after the claim: back to pending with a retry time
  (only by failJob, and only while the struct's attempts are below 3), failed, or done.
  The rest of the table is not touched.
\<close>

definition job_outcome :: "AIJob \<Rightarrow> AIJob list \<Rightarrow> AIJob list \<Rightarrow> bool" where
  "job_outcome job before after =
     ((\<exists>errMsg t. job_Attempts job < 3 \<and>
         after = update_job (job_ID job)
                   (\<lambda>r. r\<lparr>job_ErrorMsg := errMsg, job_UpdatedAt := t, job_Status := ''pending'',
                           job_NextRunAt := Some (t + 30 * second)\<rparr>) before)
      \<or> (\<exists>errMsg t.
         after = update_job (job_ID job)
                   (\<lambda>r. r\<lparr>job_ErrorMsg := errMsg, job_UpdatedAt := t, job_Status := ''failed''\<rparr>)
                   before)
      \<or> (\<exists>out t.
         after = update_job (job_ID job)
                   (\<lambda>r. r\<lparr>job_Status := ''done'', job_OutputJSON := out, job_UpdatedAt := t\<rparr>)
                   before))"

subsection \<open>A small world\<close>

definition env0 :: env where
  "env0 = \<lparr>fmt_time = fmt0,
           build_context = (\<lambda>job n. Inr (''Anda adalah customer service.'', ''halo'')),
           chat_completion = (\<lambda>n sp um. (Inr ([''ok''], 50, 10), 2 * second)),
           send_wa_text = (\<lambda>tok to body. None),
           marshal_output = (\<lambda>response inTok outTok latency. response)\<rparr>"

definition world0 :: world where
  "world0 = \<lparr>now = 1000 * second, ai_chat_messages = [], seq_msg = 0, ai_jobs = queue0,
             seq_job = 4, ai_job_attempts = [], seq_attempt = 0, breaker = openRouterCB,
             llm_calls = [], reply = ('''', 0, 0), ctx_builds = [], wa_sent = []\<rparr>"

text \<open>
  Job 3 as the claim at time 1000 s leaves it (second attempt), the attempt row processJob
  creates for it, and the error of a model call that ran into its deadline.
\<close>

definition job3_claimed :: AIJob where
  "job3_claimed = mk_job 3 ''processing'' 1 2 (Some 500) ''m3''\<lparr>job_UpdatedAt := 1000 * second\<rparr>"

definition queue0_claimed :: "AIJob list" where
  "queue0_claimed = [mk_job 1 ''pending'' 5 0 None ''m1'', mk_job 2 ''pending'' 5 1 (Some 90) ''m2'',
                     job3_claimed, mk_job 4 ''pending'' 4 0 None ''m4'']"

definition attempt1 :: AIJobAttempt where
  "attempt1 = \<lparr>att_ID = 1, att_JobID = 3, att_StartedAt = 1000 * second, att_EndedAt = 0,
               att_Status = ''processing'', att_ErrorMsg = ''''\<rparr>"

definition timeout_error :: go_error where
  "timeout_error = Errorf ''context deadline exceeded''"

text \<open>
  The same world after the claim of job 3, without and with the inbound turn \<open>m3\<close>; the
  second also with the breaker tripped 10 s ago.
\<close>

definition world0_claimed :: world where
  "world0_claimed = world0\<lparr>ai_jobs := queue0_claimed\<rparr>"

definition msg3 :: AIChatMessage where
  "msg3 = \<lparr>msg_ID = 1, msg_MessageID = ''m3'', msg_SessionTok = ''session-1'',
            msg_From = ''628123@s.whatsapp.net'', msg_To = ''628999@s.whatsapp.net'',
            msg_FromMe = False, msg_MsgType = ''text'', msg_Body = ''halo'',
            msg_PushName = ''Budi'', msg_IsRead = False, msg_Timestamp = 999 * second\<rparr>"

definition world1 :: world where
  "world1 = world0\<lparr>ai_chat_messages := [msg3], seq_msg := 1, ai_jobs := queue0_claimed\<rparr>"

definition world1_open :: world where
  "world1_open =
     world1\<lparr>breaker := openRouterCB\<lparr>failures := 5, lastFailure := 990 * second, isOpen := True\<rparr>\<rparr>"



text \<open>The world with job 3 still pending, the turn stored and the breaker tripped 10 s ago.\<close>

definition world_open_pending :: world where
  "world_open_pending = world1_open\<lparr>ai_jobs := queue0\<rparr>"


section \<open>Properties of the circuit breaker\<close>

lemma cb_inv_init: "cb_inv openRouterCB"
  by (simp add: cb_inv_def openRouterCB_def NewCircuitBreaker_def)

lemma cb_inv_Call:
  assumes "cb_inv cb" and "Call fmt clk cb fn s = (r, cb', s')"
  shows "cb_inv cb'"
proof (cases "isOpen cb \<and> \<not> (clk s - lastFailure cb > cooldown cb)")
  case True
  with assms show ?thesis by (simp add: Call_def)
next
  case False
  obtain e t where fn: "fn s = (e, t)" by (cases "fn s")
  show ?thesis
  proof (cases e)
    case None
    with False fn assms show ?thesis
      by (auto simp: Call_def cb_inv_def Let_def split: if_splits)
  next
    case (Some err)
    with False fn assms show ?thesis
      by (auto simp: Call_def cb_inv_def Let_def split: if_splits)
  qed
qed

lemma cb_inv_run_calls:
  "cb_inv cb \<Longrightarrow> cb_inv (run_calls fmt clk cb cs)"
proof (induction cs arbitrary: cb)
  case Nil
  then show ?case by simp
next
  case (Cons c cs)
  obtain fn s where c: "c = (fn, s)" by (cases c)
  obtain r cb1 s1 where r: "Call fmt clk cb fn s = (r, cb1, s1)"
    by (cases "Call fmt clk cb fn s") auto
  from Cons.prems r have "cb_inv cb1" by (rule cb_inv_Call)
  then have "cb_inv (run_calls fmt clk cb1 cs)" by (rule Cons.IH)
  with c r show ?case by simp
qed

text \<open>
  C5.  Take the breaker \<open>cb\<close> left by any sequence of calls on the worker's breaker
  (5 failures, 60 s cooldown), and call it once more with any \<open>fn\<close> in any state
  \<open>s\<close>.  (1) Open and at most 60 s since the last failure: the call returns the
  breaker's own error, and breaker and state are unchanged, so \<open>fn\<close> did not run.
  (2) Open and more than 60 s since the last failure: the breaker half-opens with the
  counter reset and \<open>fn\<close> runs; if it fails, its own error comes back, the counter is 1
  and the last failure is the time after the call; if it succeeds the counter is 0 and
  the breaker is closed.  (3) Closed: \<open>fn\<close> runs; if it fails, its own error comes
  back, the counter goes up by one, the last failure is set, and the breaker opens exactly
  when the counter reaches 5; if it succeeds the counter is 0 and the breaker stays
  closed.  (4) Whenever a call returns no error, the breaker it leaves is closed with a
  counter of 0.  (5) The counter stays within 0..5.
\<close>

theorem breaker_contract:
  assumes cb: "cb = run_calls fmt clk openRouterCB cs"
  shows
    "(isOpen cb \<and> clk s - lastFailure cb \<le> 60 * second \<longrightarrow>
        Call fmt clk cb fn s = (Some (breaker_open_error fmt cb), cb, s))
     \<and> (isOpen cb \<and> clk s - lastFailure cb > 60 * second \<longrightarrow>
        (case fn s of
           (Some err, s') \<Rightarrow>
             Call fmt clk cb fn s =
               (Some err, cb\<lparr>failures := 1, lastFailure := clk s', isOpen := False\<rparr>, s')
         | (None, s') \<Rightarrow>
             Call fmt clk cb fn s = (None, cb\<lparr>failures := 0, isOpen := False\<rparr>, s')))
     \<and> (\<not> isOpen cb \<longrightarrow>
        (case fn s of
           (Some err, s') \<Rightarrow>
             Call fmt clk cb fn s =
               (Some err,
                cb\<lparr>failures := failures cb + 1, lastFailure := clk s',
                   isOpen := (failures cb + 1 = 5)\<rparr>, s')
         | (None, s') \<Rightarrow> Call fmt clk cb fn s = (None, cb\<lparr>failures := 0\<rparr>, s')))
     \<and> (\<forall>cb' s'. Call fmt clk cb fn s = (None, cb', s') \<longrightarrow>
            \<not> isOpen cb' \<and> failures cb' = 0)
     \<and> 0 \<le> failures cb \<and> failures cb \<le> 5"
proof -
  have inv: "cb_inv cb"
    unfolding cb by (rule cb_inv_run_calls [OF cb_inv_init])
  obtain e t where fn: "fn s = (e, t)" by (cases "fn s")
  have p1: "isOpen cb \<and> clk s - lastFailure cb \<le> 60 * second \<longrightarrow>
        Call fmt clk cb fn s = (Some (breaker_open_error fmt cb), cb, s)"
    using inv by (simp add: Call_def cb_inv_def)
  have p2: "isOpen cb \<and> clk s - lastFailure cb > 60 * second \<longrightarrow>
        (case fn s of
           (Some err, s') \<Rightarrow>
             Call fmt clk cb fn s =
               (Some err, cb\<lparr>failures := 1, lastFailure := clk s', isOpen := False\<rparr>, s')
         | (None, s') \<Rightarrow>
             Call fmt clk cb fn s = (None, cb\<lparr>failures := 0, isOpen := False\<rparr>, s'))"
    using inv fn by (cases e) (simp_all add: Call_def cb_inv_def Let_def)
  have p3: "\<not> isOpen cb \<longrightarrow>
        (case fn s of
           (Some err, s') \<Rightarrow>
             Call fmt clk cb fn s =
               (Some err,
                cb\<lparr>failures := failures cb + 1, lastFailure := clk s',
                   isOpen := (failures cb + 1 = 5)\<rparr>, s')
         | (None, s') \<Rightarrow> Call fmt clk cb fn s = (None, cb\<lparr>failures := 0\<rparr>, s'))"
    using inv fn by (cases e; cases "failures cb = 4") (auto simp: Call_def cb_inv_def Let_def)
  have p4: "\<forall>cb' s'. Call fmt clk cb fn s = (None, cb', s') \<longrightarrow>
            \<not> isOpen cb' \<and> failures cb' = 0"
    using inv fn by (cases e) (auto simp: Call_def cb_inv_def breaker_open_error_def Let_def split: if_splits)
  have p5: "0 \<le> failures cb \<and> failures cb \<le> 5"
    using inv by (simp add: cb_inv_def)
  from p1 p2 p3 p4 p5 show ?thesis by blast
qed



lemma cb_tripped_eq:
  "cb_tripped = openRouterCB\<lparr>failures := 5, lastFailure := 0, isOpen := True\<rparr>"
  by (simp add: cb_tripped_def five_failures_def fail_fn_def Call_def openRouterCB_def
      NewCircuitBreaker_def Let_def)

theorem breaker_contract_witness:
  "Call fmt0 (\<lambda>t. t) cb_tripped ok_fn (10 * second)
     = (Some (breaker_open_error fmt0 cb_tripped), cb_tripped, 10 * second)
   \<and> Call fmt0 (\<lambda>t. t) cb_tripped fail_fn (61 * second)
     = (Some (Errorf ''boom''),
        cb_tripped\<lparr>failures := 1, lastFailure := 61 * second, isOpen := False\<rparr>, 61 * second)
   \<and> Call fmt0 (\<lambda>t. t) cb_tripped ok_fn (61 * second)
     = (None, cb_tripped\<lparr>failures := 0, isOpen := False\<rparr>, 61 * second)
   \<and> Call fmt0 (\<lambda>t. t) openRouterCB fail_fn 7
     = (Some (Errorf ''boom''), openRouterCB\<lparr>failures := 1, lastFailure := 7\<rparr>, 7)
   \<and> Call fmt0 (\<lambda>t. t) openRouterCB ok_fn 7 = (None, openRouterCB, 7)"
proof -
  have run: "cb_tripped = run_calls fmt0 (\<lambda>t. t) openRouterCB five_failures"
    by (simp add: cb_tripped_def)
  have run0: "openRouterCB = run_calls fmt0 (\<lambda>t. t) openRouterCB []"
    by simp
  have st: "isOpen cb_tripped" "lastFailure cb_tripped = 0"
    by (simp_all add: cb_tripped_eq)
  have st0: "\<not> isOpen openRouterCB" "failures openRouterCB = 0"
    by (simp_all add: openRouterCB_def NewCircuitBreaker_def)
  have le: "(10 * second) - 0 \<le> 60 * second" "61 * second - 0 > 60 * second"
    by (simp_all add: second_def)
  note A = breaker_contract [OF run, of "10 * second" ok_fn, THEN conjunct1]
  have a: "Call fmt0 (\<lambda>t. t) cb_tripped ok_fn (10 * second)
     = (Some (breaker_open_error fmt0 cb_tripped), cb_tripped, 10 * second)"
    using A st le by simp
  note B = breaker_contract [OF run, of "61 * second" fail_fn, THEN conjunct2, THEN conjunct1]
  have b: "Call fmt0 (\<lambda>t. t) cb_tripped fail_fn (61 * second)
     = (Some (Errorf ''boom''),
        cb_tripped\<lparr>failures := 1, lastFailure := 61 * second, isOpen := False\<rparr>, 61 * second)"
    using B st le by (simp add: fail_fn_def)
  note C = breaker_contract [OF run, of "61 * second" ok_fn, THEN conjunct2, THEN conjunct1]
  have c: "Call fmt0 (\<lambda>t. t) cb_tripped ok_fn (61 * second)
     = (None, cb_tripped\<lparr>failures := 0, isOpen := False\<rparr>, 61 * second)"
    using C st le by (simp add: ok_fn_def)
  note D = breaker_contract [OF run0, of 7 fail_fn, THEN conjunct2, THEN conjunct2, THEN conjunct1]
  have d: "Call fmt0 (\<lambda>t. t) openRouterCB fail_fn 7
     = (Some (Errorf ''boom''), openRouterCB\<lparr>failures := 1, lastFailure := 7\<rparr>, 7)"
    using D st0 by (simp add: fail_fn_def)
  note E = breaker_contract [OF run0, of 7 ok_fn, THEN conjunct2, THEN conjunct2, THEN conjunct1]
  have e: "Call fmt0 (\<lambda>t. t) openRouterCB ok_fn 7 = (None, openRouterCB, 7)"
    using E st0 by (simp add: ok_fn_def openRouterCB_def NewCircuitBreaker_def)
  from a b c d e show ?thesis by blast
qed

section \<open>Properties of the claim\<close>

lemma insort_key_not_Nil: "insort_key f x ys \<noteq> []"
  by (cases ys) simp_all

lemma sort_key_Nil_iff: "sort_key f xs = [] \<longleftrightarrow> xs = []"
  by (cases xs) (simp_all add: insort_key_not_Nil)

lemma claim_query_None:
  "claim_query dbnow locked tbl = None \<longleftrightarrow> \<not> (\<exists>j\<in>set tbl. eligible dbnow j \<and> job_ID j \<notin> locked)"
proof -
  let ?xs = "filter (\<lambda>j. eligible dbnow j \<and> job_ID j \<notin> locked) tbl"
  let ?ys = "sort_key (\<lambda>j. (job_Priority j, job_ID j)) ?xs"
  have a: "claim_query dbnow locked tbl = None \<longleftrightarrow> ?ys = []"
    unfolding claim_query_def by (cases ?ys) simp_all
  have b: "?ys = [] \<longleftrightarrow> ?xs = []"
    by (rule sort_key_Nil_iff)
  have c: "?xs = [] \<longleftrightarrow> \<not> (\<exists>j\<in>set tbl. eligible dbnow j \<and> job_ID j \<notin> locked)"
    by (auto simp: filter_empty_conv)
  from a b c show ?thesis by blast
qed

lemma claim_query_Some:
  assumes "claim_query dbnow locked tbl = Some j"
  shows "j \<in> set tbl \<and> eligible dbnow j \<and> job_ID j \<notin> locked \<and>
         (\<forall>k\<in>set tbl. eligible dbnow k \<and> job_ID k \<notin> locked \<longrightarrow>
            job_Priority j < job_Priority k \<or>
            (job_Priority j = job_Priority k \<and> job_ID j \<le> job_ID k))"
proof -
  let ?f = "\<lambda>j. (job_Priority j, job_ID j)"
  let ?xs = "filter (\<lambda>j. eligible dbnow j \<and> job_ID j \<notin> locked) tbl"
  let ?ys = "sort_key ?f ?xs"
  from assms obtain rest where ys: "?ys = j # rest"
    by (auto simp: claim_query_def split: list.splits)
  have "j \<in> set ?ys" by (simp add: ys)
  then have jin: "j \<in> set ?xs" by (simp only: set_sort)
  have "sorted (map ?f ?ys)" by (rule sorted_sort_key)
  then have le: "\<forall>k\<in>set ?ys. ?f j \<le> ?f k"
    unfolding ys by auto
  have "\<forall>k\<in>set ?xs. ?f j \<le> ?f k"
  proof
    fix k assume "k \<in> set ?xs"
    then have "k \<in> set ?ys" by (simp only: set_sort)
    with le show "?f j \<le> ?f k" by blast
  qed
  then have min: "\<forall>k\<in>set tbl. eligible dbnow k \<and> job_ID k \<notin> locked \<longrightarrow>
            job_Priority j < job_Priority k \<or>
            (job_Priority j = job_Priority k \<and> job_ID j \<le> job_ID k)"
    by (auto simp: less_eq_prod_def)
  from jin min show ?thesis by auto
qed

lemma update_job_distinct:
  assumes "distinct (map job_ID tbl)" "j \<in> set tbl"
  shows "update_job (job_ID j) f tbl = map (\<lambda>r. if r = j then f j else r) tbl"
proof -
  have "\<forall>r\<in>set tbl. (job_ID r = job_ID j) = (r = j)"
    using assms by (auto simp: distinct_map inj_on_def)
  then show ?thesis by (auto simp: update_job_def)
qed

text \<open>
  C1, as the code has it.  Among the rows no other transaction holds a lock on, the claim
  selects a job if and only if one of them is pending and due (\<open>next_run_at\<close> NULL or at
  most the database's now); the job selected is the least of those in the order (priority,
  id); and the same transaction sets its status to processing, adds exactly 1 to its
  attempts and sets \<open>updated_at\<close>, touching no other row.  The table returned is the
  committed one, and processJob starts from it (\<open>processJobs_step\<close>).  A pending, due job
  whose row is locked by a concurrent claimer is passed over.
\<close>

theorem claim_selects_least_unlocked_eligible:
  assumes ids: "distinct (map job_ID tbl)" and nz: "\<forall>j\<in>set tbl. job_ID j \<noteq> 0"
  shows
    "(claimJob dbnow tnow locked tbl \<noteq> None
        \<longleftrightarrow> (\<exists>j\<in>set tbl. eligible dbnow j \<and> job_ID j \<notin> locked))
     \<and> (\<forall>job tbl'. claimJob dbnow tnow locked tbl = Some (job, tbl') \<longrightarrow>
          (\<exists>j\<in>set tbl.
             eligible dbnow j \<and> job_ID j \<notin> locked
             \<and> (\<forall>k\<in>set tbl. eligible dbnow k \<and> job_ID k \<notin> locked \<longrightarrow>
                   job_Priority j < job_Priority k
                   \<or> (job_Priority j = job_Priority k \<and> job_ID j \<le> job_ID k))
             \<and> job = j\<lparr>job_Status := ''processing'', job_Attempts := job_Attempts j + 1,
                        job_UpdatedAt := tnow\<rparr>
             \<and> tbl' = map (\<lambda>r. if r = j then job else r) tbl))"
proof (cases "claim_query dbnow locked tbl")
  case None
  then have "claimJob dbnow tnow locked tbl = None" by (simp add: claimJob_def)
  moreover have "\<not> (\<exists>j\<in>set tbl. eligible dbnow j \<and> job_ID j \<notin> locked)"
    using None claim_query_None [of dbnow locked tbl] by blast
  ultimately show ?thesis by simp
next
  case (Some j)
  note q = claim_query_Some [OF Some]
  from q have jin: "j \<in> set tbl" by blast
  with nz have "job_ID j \<noteq> 0" by blast
  then have c: "claimJob dbnow tnow locked tbl =
      Some (j\<lparr>job_Status := ''processing'', job_Attempts := job_Attempts j + 1,
               job_UpdatedAt := tnow\<rparr>,
            update_job (job_ID j)
              (\<lambda>r. r\<lparr>job_Status := ''processing'', job_Attempts := job_Attempts j + 1,
                      job_UpdatedAt := tnow\<rparr>) tbl)"
    using Some by (simp add: claimJob_def Let_def)
  have u: "update_job (job_ID j)
              (\<lambda>r. r\<lparr>job_Status := ''processing'', job_Attempts := job_Attempts j + 1,
                      job_UpdatedAt := tnow\<rparr>) tbl
           = map (\<lambda>r. if r = j then j\<lparr>job_Status := ''processing'',
                                       job_Attempts := job_Attempts j + 1,
                                       job_UpdatedAt := tnow\<rparr> else r) tbl"
    by (rule update_job_distinct [OF ids jin])
  have left: "claimJob dbnow tnow locked tbl \<noteq> None
        \<longleftrightarrow> (\<exists>j\<in>set tbl. eligible dbnow j \<and> job_ID j \<notin> locked)"
    using c q by auto
  have right: "\<forall>job tbl'. claimJob dbnow tnow locked tbl = Some (job, tbl') \<longrightarrow>
          (\<exists>j\<in>set tbl.
             eligible dbnow j \<and> job_ID j \<notin> locked
             \<and> (\<forall>k\<in>set tbl. eligible dbnow k \<and> job_ID k \<notin> locked \<longrightarrow>
                   job_Priority j < job_Priority k
                   \<or> (job_Priority j = job_Priority k \<and> job_ID j \<le> job_ID k))
             \<and> job = j\<lparr>job_Status := ''processing'', job_Attempts := job_Attempts j + 1,
                        job_UpdatedAt := tnow\<rparr>
             \<and> tbl' = map (\<lambda>r. if r = j then job else r) tbl)"
  proof (intro allI impI)
    fix job tbl'
    assume "claimJob dbnow tnow locked tbl = Some (job, tbl')"
    with c u have
      "job = j\<lparr>job_Status := ''processing'', job_Attempts := job_Attempts j + 1,
                job_UpdatedAt := tnow\<rparr>"
      "tbl' = map (\<lambda>r. if r = j then job else r) tbl"
      by simp_all
    with q show "\<exists>j\<in>set tbl.
             eligible dbnow j \<and> job_ID j \<notin> locked
             \<and> (\<forall>k\<in>set tbl. eligible dbnow k \<and> job_ID k \<notin> locked \<longrightarrow>
                   job_Priority j < job_Priority k
                   \<or> (job_Priority j = job_Priority k \<and> job_ID j \<le> job_ID k))
             \<and> job = j\<lparr>job_Status := ''processing'', job_Attempts := job_Attempts j + 1,
                        job_UpdatedAt := tnow\<rparr>
             \<and> tbl' = map (\<lambda>r. if r = j then job else r) tbl"
      by blast
  qed
  from left right show ?thesis by blast
qed

lemma queue0_ids: "distinct (map job_ID queue0)" "\<forall>j\<in>set queue0. job_ID j \<noteq> 0"
  by (simp_all add: queue0_def mk_job_def)

theorem claim_selects_least_unlocked_eligible_witness:
  "distinct (map job_ID queue0)
   \<and> claimJob 100 101 {4} queue0 \<noteq> None
   \<and> (\<exists>j\<in>set queue0. eligible 100 j \<and> job_ID j \<notin> {4})
   \<and> claimJob 100 101 {4} queue0
       = Some (mk_job 1 ''processing'' 5 1 None ''m1''\<lparr>job_UpdatedAt := 101\<rparr>,
               [mk_job 1 ''processing'' 5 1 None ''m1''\<lparr>job_UpdatedAt := 101\<rparr>,
                mk_job 2 ''pending'' 5 1 (Some 90) ''m2'',
                mk_job 3 ''pending'' 1 1 (Some 500) ''m3'', mk_job 4 ''pending'' 4 0 None ''m4''])"
proof -
  have e: "\<exists>j\<in>set queue0. eligible 100 j \<and> job_ID j \<notin> {4}"
    by (simp add: queue0_def mk_job_def eligible_def)
  note T = claim_selects_least_unlocked_eligible [OF queue0_ids, of 100 101 "{4}", THEN conjunct1]
  from T e have n: "claimJob 100 101 {4} queue0 \<noteq> None" by blast
  have v: "claimJob 100 101 {4} queue0
       = Some (mk_job 1 ''processing'' 5 1 None ''m1''\<lparr>job_UpdatedAt := 101\<rparr>,
               [mk_job 1 ''processing'' 5 1 None ''m1''\<lparr>job_UpdatedAt := 101\<rparr>,
                mk_job 2 ''pending'' 5 1 (Some 90) ''m2'',
                mk_job 3 ''pending'' 1 1 (Some 500) ''m3'', mk_job 4 ''pending'' 4 0 None ''m4''])"
    by (simp add: claimJob_def claim_query_def queue0_def mk_job_def eligible_def
        less_eq_prod_def update_job_def Let_def)
  from queue0_ids(1) n e v show ?thesis by blast
qed

text \<open>
  C1 as stated fails where a concurrent claimer holds the lock: job 1 is pending and due,
  yet the claim selects nothing.
\<close>

theorem claim_skips_locked_counterexample:
  "eligible 100 (mk_job 1 ''pending'' 5 0 None ''m1'')
   \<and> claimJob 100 101 {1} [mk_job 1 ''pending'' 5 0 None ''m1''] = None"
  by (simp add: claimJob_def claim_query_def mk_job_def eligible_def)


section \<open>Properties of the per-job pipeline\<close>

lemma failJob_jobs:
  "ai_jobs (failJob w job attempt errMsg) =
     (if job_Attempts job < 3 then
        update_job (job_ID job)
          (\<lambda>r. r\<lparr>job_ErrorMsg := errMsg, job_UpdatedAt := now w, job_Status := ''pending'',
                  job_NextRunAt := Some (now w + 30 * second)\<rparr>) (ai_jobs w)
      else
        update_job (job_ID job)
          (\<lambda>r. r\<lparr>job_ErrorMsg := errMsg, job_UpdatedAt := now w, job_Status := ''failed''\<rparr>)
          (ai_jobs w))"
  by (simp add: failJob_def Let_def)

lemma failed_update_order:
  "(r::AIJob)\<lparr>job_Status := s, job_ErrorMsg := e, job_UpdatedAt := t\<rparr>
     = r\<lparr>job_ErrorMsg := e, job_UpdatedAt := t, job_Status := s\<rparr>"
  by (cases r) simp

lemma permanentFailJob_jobs:
  "ai_jobs (permanentFailJob w job attempt errMsg) =
     update_job (job_ID job)
       (\<lambda>r. r\<lparr>job_ErrorMsg := errMsg, job_UpdatedAt := now w, job_Status := ''failed''\<rparr>)
       (ai_jobs w)"
  by (simp add: permanentFailJob_def Let_def failed_update_order)

lemma outcome_failJob:
  "ai_jobs w = tbl \<Longrightarrow> job_outcome job tbl (ai_jobs (failJob w job attempt errMsg))"
  unfolding job_outcome_def failJob_jobs by (cases "job_Attempts job < 3") auto

lemma outcome_permanentFailJob:
  "ai_jobs w = tbl \<Longrightarrow> job_outcome job tbl (ai_jobs (permanentFailJob w job attempt errMsg))"
  unfolding job_outcome_def permanentFailJob_jobs by auto

lemma outcome_sendAndComplete:
  assumes "ai_jobs w = tbl"
  shows "job_outcome job tbl (ai_jobs (sendAndComplete env w job attempt chatMsg start))"
proof -
  obtain response inTok outTok where r: "reply w = (response, inTok, outTok)"
    by (cases "reply w") auto
  show ?thesis
  proof (cases "send_wa_text env (job_SessionTok job) (msg_From chatMsg) response")
    case (Some err)
    with r have "sendAndComplete env w job attempt chatMsg start
        = failJob w job attempt (''Failed to send WA message: '' @ err_text err)"
      by (simp add: sendAndComplete_def)
    with assms show ?thesis by (simp add: outcome_failJob)
  next
    case None
    with r assms have "ai_jobs (sendAndComplete env w job attempt chatMsg start)
        = update_job (job_ID job)
            (\<lambda>r. r\<lparr>job_Status := ''done'',
                    job_OutputJSON := marshal_output env response inTok outTok
                                        ((now w - start) div 1000000),
                    job_UpdatedAt := now w\<rparr>) tbl"
      by (simp add: sendAndComplete_def Let_def)
    then show ?thesis unfolding job_outcome_def by blast
  qed
qed

lemma AskLLM_frame:
  assumes "AskLLM env sp um w = (r, w')"
  shows "ai_jobs w' = ai_jobs w \<and> ai_chat_messages w' = ai_chat_messages w
         \<and> ai_job_attempts w' = ai_job_attempts w \<and> ctx_builds w' = ctx_builds w
         \<and> breaker w' = breaker w \<and> llm_calls w' = llm_calls w @ [(sp, um)]"
  using assms
  by (auto simp: AskLLM_def Let_def split: prod.splits sum.splits list.splits)

lemma Call_AskLLM_frame:
  assumes "Call f now cb (AskLLM env sp um) w = (r, cb', w')"
  shows "ai_jobs w' = ai_jobs w \<and> ai_chat_messages w' = ai_chat_messages w
         \<and> ai_job_attempts w' = ai_job_attempts w \<and> ctx_builds w' = ctx_builds w
         \<and> (llm_calls w' = llm_calls w \<or> llm_calls w' = llm_calls w @ [(sp, um)])"
proof -
  obtain e t where a: "AskLLM env sp um w = (e, t)" by (cases "AskLLM env sp um w")
  from a assms have "w' = w \<or> w' = t"
    by (auto simp: Call_def Let_def split: if_splits option.splits)
  with AskLLM_frame [OF a] show ?thesis by auto
qed

lemma handleLLMError_outcome:
  "ai_jobs w = tbl \<Longrightarrow> job_outcome job tbl (ai_jobs (handleLLMError env w job attempt err cur))"
proof (induction env w job attempt err cur arbitrary: tbl rule: handleLLMError.induct)
  case (1 env w job attempt err cur)
  show ?case
  proof (cases "IsContextLengthError (ParseSDKError err) \<and> cur > 5")
    case False
    then show ?thesis
      using "1.prems"
      by (subst handleLLMError.simps)
        (auto simp: Let_def outcome_failJob outcome_permanentFailJob)
  next
    case True
    let ?w1 = "w\<lparr>ctx_builds := ctx_builds w @ [5]\<rparr>"
    show ?thesis
    proof (cases "build_context env job 5")
      case (Inl ctxErr)
      with True "1.prems" show ?thesis
        by (subst handleLLMError.simps) (simp add: Let_def outcome_permanentFailJob)
    next
      case (Inr ctx)
      obtain sp um where ctx: "ctx = (sp, um)" by (cases ctx)
      obtain r cb' w2 where c: "Call (fmt_time env) now (breaker ?w1) (AskLLM env sp um) ?w1 = (r, cb', w2)"
        by (cases "Call (fmt_time env) now (breaker ?w1) (AskLLM env sp um) ?w1") auto
      from Call_AskLLM_frame [OF c] "1.prems" have fr: "ai_jobs (w2\<lparr>breaker := cb'\<rparr>) = tbl"
        by simp
      show ?thesis
      proof (cases r)
        case (Some cbErr)
        have "job_outcome job tbl (ai_jobs (handleLLMError env (w2\<lparr>breaker := cb'\<rparr>) job attempt cbErr 5))"
          using "1.IH" [OF refl True refl refl Inr ctx [symmetric] c [symmetric] Some refl fr] .
        with True Inr ctx c Some show ?thesis
          by (subst handleLLMError.simps) (simp add: Let_def)
      next
        case None
        show ?thesis
        proof (cases "first_message (job_MessageID job) (ai_chat_messages (w2\<lparr>breaker := cb'\<rparr>))")
          case None': None
          with True Inr ctx c None fr show ?thesis
            by (subst handleLLMError.simps) (simp add: Let_def outcome_failJob)
        next
          case (Some chatMsg)
          with True Inr ctx c None fr show ?thesis
            by (subst handleLLMError.simps) (simp add: Let_def outcome_sendAndComplete)
        qed
      qed
    qed
  qed
qed
lemma processJob_outcome:
  "job_outcome job (ai_jobs w) (ai_jobs (processJob env w job))"
proof -
  let ?attempt = "\<lparr>att_ID = Suc (seq_attempt w), att_JobID = job_ID job, att_StartedAt = now w,
                     att_EndedAt = 0, att_Status = ''processing'', att_ErrorMsg = ''''\<rparr>"
  let ?w1 = "w\<lparr>ai_job_attempts := ai_job_attempts w @ [?attempt],
                 seq_attempt := Suc (seq_attempt w)\<rparr>"
  let ?w2 = "?w1\<lparr>ctx_builds := ctx_builds ?w1 @ [10]\<rparr>"
  show ?thesis
  proof (cases "first_message (job_MessageID job) (ai_chat_messages w)")
    case None
    then show ?thesis by (simp add: processJob_def Let_def outcome_failJob)
  next
    case (Some chatMsg)
    show ?thesis
    proof (cases "build_context env job 10")
      case (Inl err)
      with Some show ?thesis by (simp add: processJob_def Let_def outcome_failJob)
    next
      case (Inr ctx)
      obtain sp um where ctx: "ctx = (sp, um)" by (cases ctx)
      obtain r cb' w3 where c:
        "Call (fmt_time env) now (breaker ?w2) (AskLLM env sp um) ?w2 = (r, cb', w3)"
        by (cases "Call (fmt_time env) now (breaker ?w2) (AskLLM env sp um) ?w2") auto
      from Call_AskLLM_frame [OF c] have fr: "ai_jobs (w3\<lparr>breaker := cb'\<rparr>) = ai_jobs w"
        by simp
      from c have c': "Call (fmt_time env) now (breaker w) (AskLLM env sp um) ?w2 = (r, cb', w3)"
        by simp
      show ?thesis
      proof (cases r)
        case None
        with Some Inr ctx c' fr show ?thesis
          by (simp add: processJob_def Let_def outcome_sendAndComplete)
      next
        case (Some cbErr)
        with \<open>first_message (job_MessageID job) (ai_chat_messages w) = Some chatMsg\<close> Inr ctx c' fr
        show ?thesis
          by (simp add: processJob_def Let_def handleLLMError_outcome)
      qed
    qed
  qed
qed

lemma claimJob_Some:
  assumes ids: "distinct (map job_ID tbl)"
    and c: "claimJob dbnow tnow locked tbl = Some (job, tbl')"
  shows "\<exists>j\<in>set tbl. job = j\<lparr>job_Status := ''processing'', job_Attempts := job_Attempts j + 1,
                                 job_UpdatedAt := tnow\<rparr>
            \<and> tbl' = map (\<lambda>r. if r = j then job else r) tbl"
proof -
  from c obtain j where q: "claim_query dbnow locked tbl = Some j"
    by (cases "claim_query dbnow locked tbl") (simp_all add: claimJob_def)
  from claim_query_Some [OF q] have jin: "j \<in> set tbl" by blast
  from c q have job: "job = j\<lparr>job_Status := ''processing'', job_Attempts := job_Attempts j + 1,
                                 job_UpdatedAt := tnow\<rparr>"
    and t: "tbl' = update_job (job_ID j)
              (\<lambda>r. r\<lparr>job_Status := ''processing'', job_Attempts := job_Attempts j + 1,
                      job_UpdatedAt := tnow\<rparr>) tbl"
    by (auto simp: claimJob_def Let_def split: if_splits)
  from t have "tbl' = map (\<lambda>r. if r = j then job else r) tbl"
    unfolding job by (simp only: update_job_distinct [OF ids jin])
  with jin job show ?thesis by blast
qed

lemma claimed_row_after:
  assumes ids: "distinct (map job_ID tbl)" and jin: "j \<in> set tbl"
    and cid: "job_ID c = job_ID j"
    and out: "job_outcome c (map (\<lambda>r. if r = j then c else r) tbl) after"
    and r: "r \<in> set after" "job_ID r = job_ID c"
  shows "job_Status r \<in> {''pending'', ''failed'', ''done''}
         \<and> (job_Status r = ''pending'' \<longrightarrow> job_Attempts c < 3)
         \<and> job_Attempts r = job_Attempts c"
proof -
  have only: "\<forall>x\<in>set tbl. job_ID x = job_ID j \<longrightarrow> x = j"
    using ids jin by (auto simp: distinct_map inj_on_def)
  have rows: "\<And>f. r \<in> set (update_job (job_ID c) f (map (\<lambda>r. if r = j then c else r) tbl))
      \<Longrightarrow> (\<forall>x. job_ID (f x) = job_ID x) \<Longrightarrow> r = f c"
    using r(2) cid only by (auto simp: update_job_def split: if_splits)
  from out consider
    (pending) errMsg t where "job_Attempts c < 3"
      "after = update_job (job_ID c)
                   (\<lambda>r. r\<lparr>job_ErrorMsg := errMsg, job_UpdatedAt := t, job_Status := ''pending'',
                           job_NextRunAt := Some (t + 30 * second)\<rparr>)
                   (map (\<lambda>r. if r = j then c else r) tbl)"
  | (failed) errMsg t where
      "after = update_job (job_ID c)
                   (\<lambda>r. r\<lparr>job_ErrorMsg := errMsg, job_UpdatedAt := t, job_Status := ''failed''\<rparr>)
                   (map (\<lambda>r. if r = j then c else r) tbl)"
  | (completed) out t where
      "after = update_job (job_ID c)
                   (\<lambda>r. r\<lparr>job_Status := ''done'', job_OutputJSON := out, job_UpdatedAt := t\<rparr>)
                   (map (\<lambda>r. if r = j then c else r) tbl)"
    unfolding job_outcome_def by blast
  then show ?thesis
  proof cases
    case pending
    from r(1) have "r = c\<lparr>job_ErrorMsg := errMsg, job_UpdatedAt := t, job_Status := ''pending'',
                           job_NextRunAt := Some (t + 30 * second)\<rparr>"
      unfolding pending(2) by (rule rows) simp
    with pending(1) show ?thesis by simp
  next
    case failed
    from r(1) have "r = c\<lparr>job_ErrorMsg := errMsg, job_UpdatedAt := t, job_Status := ''failed''\<rparr>"
      unfolding failed by (rule rows) simp
    then show ?thesis by simp
  next
    case completed
    from r(1) have "r = c\<lparr>job_Status := ''done'', job_OutputJSON := out, job_UpdatedAt := t\<rparr>"
      unfolding completed by (rule rows) simp
    then show ?thesis by simp
  qed
qed

lemma retryable_goes_to_failJob:
  assumes "IsRetryable (ParseSDKError err)"
  shows "handleLLMError env w job attempt err cur =
           failJob w job attempt
             (''LLM call failed ('' @ show_int (Code (ParseSDKError err)) @ ''): ''
                @ Message (ParseSDKError err))"
  using assms
  by (subst handleLLMError.simps)
    (auto simp: Let_def IsRetryable_def IsContextLengthError_def IsAuthError_def
      IsPaymentError_def IsModerationError_def)


text \<open>
  C2.  failJob on a job whose attempts are below 3 writes the row back to pending with
  \<open>next_run_at\<close> 30 s after the current time and the error message recorded; otherwise it
  writes the row to failed (with the message).  A model error classified as retryable
  (408, 429, 502, 503) is handled by exactly that failJob.  Consequently, for any claimed
  job, whatever the environment does, the row that processJob leaves is pending, failed
  or done, and it is pending only with an attempts count below 3.
\<close>

theorem transient_failure_retry_rule:
  assumes ids: "distinct (map job_ID (ai_jobs w))"
  shows
    "(job_Attempts job < 3 \<longrightarrow>
        ai_jobs (failJob w job attempt errMsg) =
          update_job (job_ID job)
            (\<lambda>r. r\<lparr>job_ErrorMsg := errMsg, job_UpdatedAt := now w, job_Status := ''pending'',
                    job_NextRunAt := Some (now w + 30 * second)\<rparr>) (ai_jobs w))
     \<and> (\<not> job_Attempts job < 3 \<longrightarrow>
        ai_jobs (failJob w job attempt errMsg) =
          update_job (job_ID job)
            (\<lambda>r. r\<lparr>job_ErrorMsg := errMsg, job_UpdatedAt := now w, job_Status := ''failed''\<rparr>)
            (ai_jobs w))
     \<and> (IsRetryable (ParseSDKError err) \<longrightarrow>
        handleLLMError env w job attempt err cur =
          failJob w job attempt
            (''LLM call failed ('' @ show_int (Code (ParseSDKError err)) @ ''): ''
               @ Message (ParseSDKError err)))
     \<and> (\<forall>cjob tbl'. claimJob dbnow (now w) locked (ai_jobs w) = Some (cjob, tbl') \<longrightarrow>
          (\<forall>r\<in>set (ai_jobs (processJob env (w\<lparr>ai_jobs := tbl'\<rparr>) cjob)).
             job_ID r = job_ID cjob \<longrightarrow>
               job_Status r \<in> {''pending'', ''failed'', ''done''}
               \<and> (job_Status r = ''pending'' \<longrightarrow> job_Attempts r < 3)))"
proof -
  have p12: "(job_Attempts job < 3 \<longrightarrow>
        ai_jobs (failJob w job attempt errMsg) =
          update_job (job_ID job)
            (\<lambda>r. r\<lparr>job_ErrorMsg := errMsg, job_UpdatedAt := now w, job_Status := ''pending'',
                    job_NextRunAt := Some (now w + 30 * second)\<rparr>) (ai_jobs w))
     \<and> (\<not> job_Attempts job < 3 \<longrightarrow>
        ai_jobs (failJob w job attempt errMsg) =
          update_job (job_ID job)
            (\<lambda>r. r\<lparr>job_ErrorMsg := errMsg, job_UpdatedAt := now w, job_Status := ''failed''\<rparr>)
            (ai_jobs w))"
    by (simp add: failJob_jobs)
  have p3: "IsRetryable (ParseSDKError err) \<longrightarrow>
        handleLLMError env w job attempt err cur =
          failJob w job attempt
            (''LLM call failed ('' @ show_int (Code (ParseSDKError err)) @ ''): ''
               @ Message (ParseSDKError err))"
    using retryable_goes_to_failJob by blast
  have p4: "\<forall>cjob tbl'. claimJob dbnow (now w) locked (ai_jobs w) = Some (cjob, tbl') \<longrightarrow>
          (\<forall>r\<in>set (ai_jobs (processJob env (w\<lparr>ai_jobs := tbl'\<rparr>) cjob)).
             job_ID r = job_ID cjob \<longrightarrow>
               job_Status r \<in> {''pending'', ''failed'', ''done''}
               \<and> (job_Status r = ''pending'' \<longrightarrow> job_Attempts r < 3))"
  proof (intro allI impI ballI)
    fix cjob tbl' r
    assume c: "claimJob dbnow (now w) locked (ai_jobs w) = Some (cjob, tbl')"
      and r: "r \<in> set (ai_jobs (processJob env (w\<lparr>ai_jobs := tbl'\<rparr>) cjob))"
        "job_ID r = job_ID cjob"
    from claimJob_Some [OF ids c] obtain j where j: "j \<in> set (ai_jobs w)"
      and cj: "cjob = j\<lparr>job_Status := ''processing'', job_Attempts := job_Attempts j + 1,
                        job_UpdatedAt := now w\<rparr>"
      and t: "tbl' = map (\<lambda>r. if r = j then cjob else r) (ai_jobs w)"
      by blast
    from cj have cid: "job_ID cjob = job_ID j" by simp
    have out: "job_outcome cjob (map (\<lambda>r. if r = j then cjob else r) (ai_jobs w))
                 (ai_jobs (processJob env (w\<lparr>ai_jobs := tbl'\<rparr>) cjob))"
      using processJob_outcome [of cjob "w\<lparr>ai_jobs := tbl'\<rparr>" env] t by simp
    from claimed_row_after [OF ids j cid out r]
    show "job_Status r \<in> {''pending'', ''failed'', ''done''}
               \<and> (job_Status r = ''pending'' \<longrightarrow> job_Attempts r < 3)"
      by auto
  qed
  from p12 p3 p4 show ?thesis by blast
qed

lemma world0_ids: "distinct (map job_ID (ai_jobs world0))"
  by (simp add: world0_def queue0_def mk_job_def)

lemma claim_world0:
  "claimJob (1000 * second) (now world0) {} (ai_jobs world0) = Some (job3_claimed, queue0_claimed)"
  by (simp add: claimJob_def claim_query_def world0_def queue0_def mk_job_def eligible_def
      less_eq_prod_def update_job_def Let_def job3_claimed_def queue0_claimed_def second_def)

lemma timeout_retryable: "IsRetryable (ParseSDKError timeout_error)"
  by (simp add: timeout_error_def Errorf_def ParseSDKError_def ToLower_def lower_char_def
      IsRetryable_def Let_def)

lemma parse_timeout:
  "ParseSDKError timeout_error = \<lparr>StatusCode = 408, Code = 408, Message = ''Request timeout''\<rparr>"
  by (simp add: timeout_error_def Errorf_def ParseSDKError_def ToLower_def lower_char_def Let_def)

lemma show_408: "show_int 408 = ''408''"
  by (simp add: show_int_def show_nat.simps)

theorem transient_failure_retry_rule_witness:
  "job_Attempts job3_claimed < 3
   \<and> ai_jobs (failJob world0 job3_claimed attempt1 ''boom'') =
       update_job 3
         (\<lambda>r. r\<lparr>job_ErrorMsg := ''boom'', job_UpdatedAt := 1000 * second,
                 job_Status := ''pending'', job_NextRunAt := Some (1030 * second)\<rparr>) queue0
   \<and> ai_jobs (failJob world0 (job3_claimed\<lparr>job_Attempts := 3\<rparr>) attempt1 ''boom'') =
       update_job 3
         (\<lambda>r. r\<lparr>job_ErrorMsg := ''boom'', job_UpdatedAt := 1000 * second,
                 job_Status := ''failed''\<rparr>) queue0
   \<and> handleLLMError env0 world0 job3_claimed attempt1 timeout_error 10 =
       failJob world0 job3_claimed attempt1 ''LLM call failed (408): Request timeout''
   \<and> (\<exists>r\<in>set (ai_jobs (processJob env0 (world0\<lparr>ai_jobs := queue0_claimed\<rparr>) job3_claimed)).
         job_ID r = 3 \<and> job_Status r = ''pending'' \<and> job_Attempts r < 3)"
proof -
  note T = transient_failure_retry_rule [OF world0_ids]
  have a3: "job_Attempts job3_claimed < 3" "job_ID job3_claimed = 3"
    by (simp_all add: job3_claimed_def mk_job_def)
  have w: "now world0 = 1000 * second" "ai_jobs world0 = queue0"
    by (simp_all add: world0_def)
  have s: "1000 * second + 30 * second = 1030 * second" by (simp add: second_def)
  note A = T [where job = job3_claimed and attempt = attempt1 and errMsg = "''boom''", THEN conjunct1]
  have a: "ai_jobs (failJob world0 job3_claimed attempt1 ''boom'') =
       update_job 3
         (\<lambda>r. r\<lparr>job_ErrorMsg := ''boom'', job_UpdatedAt := 1000 * second,
                 job_Status := ''pending'', job_NextRunAt := Some (1030 * second)\<rparr>) queue0"
    using A a3 w s by simp
  note B = T [where job = "job3_claimed\<lparr>job_Attempts := 3\<rparr>" and attempt = attempt1
      and errMsg = "''boom''", THEN conjunct2, THEN conjunct1]
  have b: "ai_jobs (failJob world0 (job3_claimed\<lparr>job_Attempts := 3\<rparr>) attempt1 ''boom'') =
       update_job 3
         (\<lambda>r. r\<lparr>job_ErrorMsg := ''boom'', job_UpdatedAt := 1000 * second,
                 job_Status := ''failed''\<rparr>) queue0"
    using B a3 w by simp
  note C = T [where err = timeout_error and env = env0 and job = job3_claimed and attempt = attempt1
      and cur = 10, THEN conjunct2, THEN conjunct2, THEN conjunct1]
  have c: "handleLLMError env0 world0 job3_claimed attempt1 timeout_error 10 =
       failJob world0 job3_claimed attempt1 ''LLM call failed (408): Request timeout''"
    using C timeout_retryable by (simp add: parse_timeout show_408)
  note D = T [where dbnow = "1000 * second" and locked = "{}" and env = env0,
      THEN conjunct2, THEN conjunct2, THEN conjunct2, rule_format, OF claim_world0]
  have row: "mk_job 3 ''pending'' 1 2 (Some (1030 * second)) ''m3''
               \<lparr>job_ErrorMsg := ''Failed to fetch chat message: record not found'',
                 job_UpdatedAt := 1000 * second\<rparr>
             \<in> set (ai_jobs (processJob env0 (world0\<lparr>ai_jobs := queue0_claimed\<rparr>) job3_claimed))"
    by (simp add: processJob_def first_message_def failJob_def world0_def queue0_claimed_def
        job3_claimed_def mk_job_def update_job_def Let_def second_def)
  have d: "\<exists>r\<in>set (ai_jobs (processJob env0 (world0\<lparr>ai_jobs := queue0_claimed\<rparr>) job3_claimed)).
         job_ID r = 3 \<and> job_Status r = ''pending'' \<and> job_Attempts r < 3"
    using D [OF row] row a3 by (intro bexI [OF _ row]) (simp_all add: mk_job_def)
  from a3(1) a b c d show ?thesis by blast
qed


lemma failJob_frame:
  "llm_calls (failJob w job attempt errMsg) = llm_calls w
   \<and> ctx_builds (failJob w job attempt errMsg) = ctx_builds w
   \<and> wa_sent (failJob w job attempt errMsg) = wa_sent w"
  by (simp add: failJob_def Let_def)



text \<open>
  C3, as the code has it.  When no stored turn has the job's \<open>message_id\<close>, processJob
  hands the job to failJob: the error message is recorded, and the row goes back to
  pending with \<open>next_run_at\<close> 30 s ahead while the attempts are below 3, and to failed only
  from the third attempt on.  No context is built, the model is not called and nothing is
  sent.
\<close>

theorem missing_turn_uses_retry_rule:
  assumes "first_message (job_MessageID job) (ai_chat_messages w) = None"
  shows
    "ai_jobs (processJob env w job) =
       (if job_Attempts job < 3 then
          update_job (job_ID job)
            (\<lambda>r. r\<lparr>job_ErrorMsg := ''Failed to fetch chat message: record not found'',
                    job_UpdatedAt := now w, job_Status := ''pending'',
                    job_NextRunAt := Some (now w + 30 * second)\<rparr>) (ai_jobs w)
        else
          update_job (job_ID job)
            (\<lambda>r. r\<lparr>job_ErrorMsg := ''Failed to fetch chat message: record not found'',
                    job_UpdatedAt := now w, job_Status := ''failed''\<rparr>) (ai_jobs w))
     \<and> llm_calls (processJob env w job) = llm_calls w
     \<and> ctx_builds (processJob env w job) = ctx_builds w
     \<and> wa_sent (processJob env w job) = wa_sent w"
  using assms by (simp add: processJob_def Let_def failJob_jobs failJob_frame)

theorem missing_turn_uses_retry_rule_witness:
  "first_message (job_MessageID job3_claimed) (ai_chat_messages world0_claimed) = None
   \<and> job_Attempts job3_claimed < 3
   \<and> ai_jobs (processJob env0 world0_claimed job3_claimed) =
       update_job 3
         (\<lambda>r. r\<lparr>job_ErrorMsg := ''Failed to fetch chat message: record not found'',
                 job_UpdatedAt := 1000 * second, job_Status := ''pending'',
                 job_NextRunAt := Some (1030 * second)\<rparr>) queue0_claimed
   \<and> llm_calls (processJob env0 world0_claimed job3_claimed) = []"
proof -
  have m: "first_message (job_MessageID job3_claimed) (ai_chat_messages world0_claimed) = None"
    by (simp add: first_message_def world0_claimed_def world0_def)
  have a: "job_Attempts job3_claimed < 3" "job_ID job3_claimed = 3"
    by (simp_all add: job3_claimed_def mk_job_def)
  have w: "now world0_claimed = 1000 * second" "ai_jobs world0_claimed = queue0_claimed"
    "llm_calls world0_claimed = []"
    by (simp_all add: world0_claimed_def world0_def)
  have s: "1000 * second + 30 * second = 1030 * second" by (simp add: second_def)
  note T = missing_turn_uses_retry_rule [OF m, of env0]
  from T [THEN conjunct1] a w s have j:
    "ai_jobs (processJob env0 world0_claimed job3_claimed) =
       update_job 3
         (\<lambda>r. r\<lparr>job_ErrorMsg := ''Failed to fetch chat message: record not found'',
                 job_UpdatedAt := 1000 * second, job_Status := ''pending'',
                 job_NextRunAt := Some (1030 * second)\<rparr>) queue0_claimed"
    by simp
  from T [THEN conjunct2, THEN conjunct1] w have l:
    "llm_calls (processJob env0 world0_claimed job3_claimed) = []"
    by simp
  from m a(1) j l show ?thesis by blast
qed

text \<open>
  C3 as stated fails: job 3, on its second attempt, has no stored turn, and processJob
  leaves it pending with a retry scheduled, not failed.
\<close>

theorem missing_turn_is_retried_counterexample:
  "first_message (job_MessageID job3_claimed) (ai_chat_messages world0_claimed) = None
   \<and> find (\<lambda>r. job_ID r = 3) (ai_jobs (processJob env0 world0_claimed job3_claimed)) =
       Some (mk_job 3 ''pending'' 1 2 (Some (1030 * second)) ''m3''
               \<lparr>job_ErrorMsg := ''Failed to fetch chat message: record not found'',
                 job_UpdatedAt := 1000 * second\<rparr>)"
  by (simp add: processJob_def first_message_def failJob_def world0_claimed_def world0_def
      queue0_claimed_def job3_claimed_def mk_job_def update_job_def Let_def second_def)















text \<open>
  C4: what the code does with the breaker's own error.  The breaker of \<open>world1_open\<close>
  tripped 10 s ago.  Its error is a plain error whose text has none of the phrases
  ParseSDKError looks for, so it is classified 500, which is not retryable.  processJob
  on the claimed job 3 (attempts 2) therefore leaves the row failed, without calling the
  model and without scheduling a retry.
\<close>

theorem breaker_open_error_is_classified_permanent:
  "isOpen (breaker world1_open)
   \<and> now world1_open - lastFailure (breaker world1_open) \<le> cooldown (breaker world1_open)
   \<and> ParseSDKError (breaker_open_error fmt0 (breaker world1_open)) =
       \<lparr>StatusCode = 500, Code = 500,
        Message = ''circuit breaker openrouter is open (cooldown until 2025-01-01 00:17:30.000000001 +0000 UTC m=+1050.000000001)''\<rparr>
   \<and> IsRetryable (ParseSDKError (breaker_open_error fmt0 (breaker world1_open))) = False
   \<and> job_Attempts job3_claimed = 2
   \<and> map job_Status (ai_jobs (processJob env0 world1_open job3_claimed))
       = [''pending'', ''pending'', ''failed'', ''pending'']
   \<and> llm_calls (processJob env0 world1_open job3_claimed) = []"
  by code_simp

text \<open>
  C2 at the same defect, through the claim: job 3 is pending with one earlier attempt;
  the claim makes it the second attempt, the open breaker refuses the call, and the row
  ends failed with its \<open>next_run_at\<close> untouched, although 2 is below 3.
\<close>

theorem breaker_open_job_is_not_retried:
  "map_option (\<lambda>w. find (\<lambda>r. job_ID r = 3) (ai_jobs w))
     (processJobs_step env0 (1000 * second) {} world_open_pending)
   = Some (Some (mk_job 3 ''failed'' 1 2 (Some 500) ''m3''
        \<lparr>job_ErrorMsg := ''Non-retryable error: 500 - circuit breaker openrouter is open (cooldown until 2025-01-01 00:17:30.000000001 +0000 UTC m=+1050.000000001)'',
          job_UpdatedAt := 1000 * second\<rparr>))"
  by code_simp


end
